theory Spec2Isabelle
  imports Complex_Main
begin

section \<open>Quantum walk on a line: the neighbour-probability vector\<close>

text \<open>
  The notebook \<^verbatim>\<open>Harshit_Agarwal_hw4.ipynb\<close> builds, for each node \<open>i\<close> of a line of
  \<open>2**4\<close> nodes, a Python list \<open>prob\<close> that is handed to the state preparation:
  \<^verbatim>\<open>
  def C_iteration(i:int,vertices: QNum, adjacent_vertices:QNum):
      num_nodes = 2**4
      prob = [0]*num_nodes
      if i == 0:
          prob[i + 1] = 1.0
      elif i == num_nodes - 1:
          prob[i - 1] = 1.0
      else:
          prob[i - 1] = 0.5
          prob[i + 1] = 0.5
  \<close>
  The entries \<open>0\<close>, \<open>0.5\<close> and \<open>1.0\<close> are dyadic, so they and their sums are exact in
  binary floating point; they are modelled as reals. The quantum call that follows
  (\<open>control\<close>, \<open>within_apply\<close>, \<open>inplace_prepare_state\<close>) belongs to the SDK and is not
  modelled: \<open>C_iteration\<close> below returns the list \<open>prob\<close> that the call receives.
\<close>

datatype py_error = IndexError | AssertionError | OverflowError

text \<open>
  Assignment \<open>xs[i] = v\<close> on a Python list: a negative index counts from the end, an
  index outside \<open>-len(xs) .. len(xs)-1\<close> raises \<open>IndexError\<close>.
\<close>

definition list_setitem :: "'a list \<Rightarrow> int \<Rightarrow> 'a \<Rightarrow> py_error + 'a list" where
  "list_setitem xs i v =
     (let n = int (length xs); j = (if i < 0 then n + i else i)
      in if 0 \<le> j \<and> j < n then Inr (xs[nat j := v]) else Inl IndexError)"

definition C_iteration :: "int \<Rightarrow> py_error + real list" where
  "C_iteration i =
     (let num_nodes = (2::int) ^ 4;
          prob = replicate (nat num_nodes) (0::real)
      in if i = 0 then list_setitem prob (i + 1) 1
         else if i = num_nodes - 1 then list_setitem prob (i - 1) 1
         else (case list_setitem prob (i - 1) (1 / 2) of
                 Inl e \<Rightarrow> Inl e
               | Inr prob' \<Rightarrow> list_setitem prob' (i + 1) (1 / 2)))"


section \<open>Rainbow option pricing: the classical cells of the notebook\<close>

text \<open>
  The notebook computes with Python and numpy floats, which are doubles. They are
  modelled as reals: the theory follows the arithmetic the cells write down, exactly.
  Where a float operation of the source yields \<open>nan\<close> or \<open>inf\<close> instead of a number (a
  division by \<open>0.0\<close>, \<open>np.sqrt\<close> of a negative number, a distribution with a
  non-positive scale, a product beyond the largest double), the value is an \<open>npfloat\<close>,
  and \<open>None\<close> stands for "not a finite float". Exceptions are values of a sum type,
  \<open>Inl\<close> the exception.

  A double carries 53 significant bits, so the exact model describes a run only as
  long as the quantities the run has to tell apart differ by much more than one part
  in \<open>2\<^sup>5\<^sup>3\<close> and no intermediate result under- or overflows. Outside that range the
  doubles collapse where the reals do not: \<open>1e17 - 3\<close> is \<open>1e17\<close>, and the normal
  distribution function is \<open>0.5\<close> at every point within \<open>1e-17\<close> of the mean. The
  theorems about \<open>gaussian_discretization\<close> therefore state the range of arguments they
  are about, with a wide margin (one part in \<open>2\<^sup>4\<^sup>0\<close>, magnitudes between \<open>2\<^bsup>-1000\<^esup>\<close> and
  \<open>2\<^sup>1\<^sup>0\<^sup>0\<^sup>0\<close>); inside it the doubles of a run agree with the reals of the model up to
  rounding.
  The notebook fixes \<open>NUM_ASSETS = 2\<close>, so its vectors are pairs and its matrices pairs
  of rows.
\<close>

type_synonym npfloat = "real option"
type_synonym vec2 = "real \<times> real"
type_synonym mat2 = "vec2 \<times> vec2"

datatype np_error = LinAlgError

subsection \<open>Second cell: \<open>MU\<close>, \<open>CHOLESKY\<close> and \<open>SCALING_FACTOR\<close>\<close>

text \<open>
  \<open>np.linalg.cholesky\<close> is numpy's: it returns the lower-triangular factor \<open>L\<close> with
  positive diagonal and \<open>L L\<^sup>T = A\<close>, reads only the lower triangle and the diagonal
  of its argument, and raises \<open>LinAlgError\<close> when a pivot is not positive. For a
  \<open>2 \<times> 2\<close> matrix the factorisation is the following.
\<close>

definition cholesky :: "mat2 \<Rightarrow> np_error + mat2" where
  "cholesky A =
     (let a00 = fst (fst A); a10 = fst (snd A); a11 = snd (snd A)
      in if a00 \<le> 0 then Inl LinAlgError
         else let l00 = sqrt a00; l10 = a10 / l00; r = a11 - l10 * l10
              in if r \<le> 0 then Inl LinAlgError
                 else Inr ((l00, 0), (l10, sqrt r)))"

definition np_sqrt :: "real \<Rightarrow> npfloat" where
  "np_sqrt x = (if x < 0 then None else Some (sqrt x))"

definition mat_scale :: "mat2 \<Rightarrow> real \<Rightarrow> mat2" where
  "mat_scale M s = ((fst (fst M) * s, snd (fst M) * s), (fst (snd M) * s, snd (snd M) * s))"

text \<open>
  \<^verbatim>\<open>
  MU = MU_LOG_RET * dt
  CHOLESKY = np.linalg.cholesky(COV) * np.sqrt(dt)
  SCALING_FACTOR = 1 / CHOLESKY[0, 0]
  \<close>
  The cell returns the three constants. \<open>CHOLESKY\<close> is \<open>None\<close> when \<open>np.sqrt(dt)\<close> is
  \<open>nan\<close> (every entry is then \<open>nan\<close>), \<open>SCALING_FACTOR\<close> is \<open>None\<close> when it is \<open>nan\<close> or
  the \<open>inf\<close> of a division by \<open>0.0\<close>.
\<close>

definition derived_constants ::
  "real \<Rightarrow> mat2 \<Rightarrow> vec2 \<Rightarrow> np_error + (vec2 \<times> mat2 option \<times> npfloat)" where
  "derived_constants dt COV MU_LOG_RET =
     (let MU = (fst MU_LOG_RET * dt, snd MU_LOG_RET * dt)
      in case cholesky COV of
           Inl e \<Rightarrow> Inl e
         | Inr L \<Rightarrow>
             (let CHOLESKY = map_option (mat_scale L) (np_sqrt dt);
                  SCALING_FACTOR =
                    (case CHOLESKY of
                       None \<Rightarrow> None
                     | Some C \<Rightarrow> if fst (fst C) = 0 then None else Some (1 / fst (fst C)))
              in Inr (MU, CHOLESKY, SCALING_FACTOR)))"

subsection \<open>Third cell: \<open>gaussian_discretization\<close>\<close>

text \<open>
  \<open>np.linspace(start, stop, num)\<close> is \<open>num\<close> evenly spaced points, the first \<open>start\<close> and
  (for \<open>num > 1\<close>) the last \<open>stop\<close>; for \<open>num = 1\<close> it is \<open>[start]\<close>.
\<close>

definition linspace :: "real \<Rightarrow> real \<Rightarrow> nat \<Rightarrow> real list" where
  "linspace start stop num =
     map (\<lambda>i. start + real i * ((stop - start) / real (num - 1))) [0..<num]"

text \<open>
  The standard normal distribution function \<open>\<Phi>\<close>, which scipy computes, is
  1/2 plus the integral from 0 to \<open>x\<close> of the density \<open>exp (- t\<^sup>2 / 2) / sqrt (2 * pi)\<close>.
  Integrating the exponential series term by term gives the power series below: the
  coefficient of \<open>x ^ (2 * k + 1)\<close> is \<open>(- 1 / 2) ^ k / (fact k * (2 * k + 1))\<close>. That the
  series is \<open>\<Phi>\<close> is checked further down: its value at 0 is 1/2 and its derivative is
  the normal density.
\<close>

definition std_normal_coeff :: "nat \<Rightarrow> real" where
  "std_normal_coeff n =
     (if even n then 0 else (- 1 / 2) ^ ((n - 1) div 2) / (fact ((n - 1) div 2) * real n))"

definition std_normal_cdf :: "real \<Rightarrow> real" where
  "std_normal_cdf x = 1 / 2 + (\<Sum>n. std_normal_coeff n * x ^ n) / sqrt (2 * pi)"

text \<open>
  \<open>scipy.stats.norm.cdf(x, loc, scale)\<close> is \<open>\<Phi>((x - loc) / scale)\<close>, and \<open>nan\<close> when
  \<open>scale\<close> is not positive. \<open>\<Phi>\<close> is strictly increasing; the doubles scipy returns for
  it are only non-decreasing, and equal for arguments closer than double precision
  resolves (\<open>0.5\<close> for every argument within \<open>1e-17\<close> of 0).
\<close>

definition norm_cdf :: "real \<Rightarrow> real \<Rightarrow> real \<Rightarrow> npfloat" where
  "norm_cdf x loc scale = (if 0 < scale then Some (std_normal_cdf ((x - loc) / scale)) else None)"

definition np_sub :: "npfloat \<Rightarrow> npfloat \<Rightarrow> npfloat" where
  "np_sub x y = (case (x, y) of (Some u, Some v) \<Rightarrow> Some (u - v) | _ \<Rightarrow> None)"

definition np_add :: "npfloat \<Rightarrow> npfloat \<Rightarrow> npfloat" where
  "np_add x y = (case (x, y) of (Some u, Some v) \<Rightarrow> Some (u + v) | _ \<Rightarrow> None)"

definition np_sum :: "npfloat list \<Rightarrow> npfloat" where
  "np_sum xs = foldl np_add (Some 0) xs"

text \<open>
  numpy's true division: \<open>0.0 / 0.0\<close> is \<open>nan\<close> and \<open>x / 0.0\<close> is \<open>inf\<close> or \<open>-inf\<close>, with a warning and
  no exception.
\<close>

definition np_divide :: "npfloat \<Rightarrow> npfloat \<Rightarrow> npfloat" where
  "np_divide x y =
     (case (x, y) of
        (Some u, Some v) \<Rightarrow> if v = 0 then None else Some (u / v)
      | _ \<Rightarrow> None)"

text \<open>
  \<^verbatim>\<open>
  def single_gaussian(x, _mu, _sigma):
      cdf = scipy.stats.norm.cdf(x, loc=_mu, scale=_sigma)
      return cdf[1:] - cdf[0:-1]
  \<close>
\<close>

definition single_gaussian :: "real list \<Rightarrow> real \<Rightarrow> real \<Rightarrow> npfloat list" where
  "single_gaussian x mu' sigma' =
     (let cdf = map (\<lambda>p. norm_cdf p mu' sigma') x
      in map (\<lambda>(u, v). np_sub u v) (zip (tl cdf) (butlast cdf)))"

text \<open>
  \<^verbatim>\<open>
  def gaussian_discretization(num_qubits, mu=0, sigma=1, stds_around_mean_to_include=3):
      lower = mu - stds_around_mean_to_include * sigma
      upper = mu + stds_around_mean_to_include * sigma
      num_of_bins = 2**num_qubits
      sample_points = np.linspace(lower, upper, num_of_bins + 1)
      ...
      non_normalized_pmf = (single_gaussian(sample_points, mu, sigma),)
      real_probs = non_normalized_pmf / np.sum(non_normalized_pmf)
      return sample_points[:-1], real_probs[0].tolist()
  \<close>
  \<open>num_qubits\<close> is a number of qubits, a natural number. In doubles
  \<open>mu - stds_around_mean_to_include * sigma\<close> and \<open>mu + stds_around_mean_to_include * sigma\<close>
  are both \<open>mu\<close> when the product is below the precision of \<open>mu\<close>; the real-valued
  \<open>lower\<close> and \<open>upper\<close> here differ whenever the product is not 0.
\<close>

definition gaussian_discretization ::
  "nat \<Rightarrow> real \<Rightarrow> real \<Rightarrow> real \<Rightarrow> real list \<times> npfloat list" where
  "gaussian_discretization num_qubits mu sigma stds_around_mean_to_include =
     (let lower = mu - stds_around_mean_to_include * sigma;
          upper = mu + stds_around_mean_to_include * sigma;
          num_of_bins = 2 ^ num_qubits;
          sample_points = linspace lower upper (num_of_bins + 1);
          non_normalized_pmf = single_gaussian sample_points mu sigma;
          total = np_sum non_normalized_pmf;
          real_probs = map (\<lambda>p. np_divide p total) non_normalized_pmf
      in (butlast sample_points, real_probs))"

subsection \<open>Fourth cell: the sanity check\<close>

text \<open>
  \<^verbatim>\<open>
  if K >= max(S0 * np.exp(np.dot(CHOLESKY, [grid_points[-1]] * 2) + MU)):
      display(Markdown("<font color='red'> K always greater than the maximum asset values. Stop the run, the payoff is 0</font>"))
  \<close>
  The cell reads the globals \<open>K\<close>, \<open>S0\<close>, \<open>CHOLESKY\<close>, \<open>MU\<close> and \<open>grid_points\<close>, here its
  parameters. Its result is the list of what it displays; it raises only if
  \<open>grid_points\<close> is empty (\<open>grid_points[-1]\<close>). A cell that returns normally lets
  the run go on to the next cell.
\<close>

definition max_asset_value :: "vec2 \<Rightarrow> mat2 \<Rightarrow> vec2 \<Rightarrow> real \<Rightarrow> real" where
  "max_asset_value S0 CHOLESKY MU g =
     (let d0 = fst (fst CHOLESKY) * g + snd (fst CHOLESKY) * g;
          d1 = fst (snd CHOLESKY) * g + snd (snd CHOLESKY) * g
      in max (fst S0 * exp (d0 + fst MU)) (snd S0 * exp (d1 + snd MU)))"

definition warning_text :: string where
  "warning_text =
     ''<font color='' @ [CHR 0x27] @ ''red'' @ [CHR 0x27] @
     ''> K always greater than the maximum asset values. Stop the run, the payoff is 0</font>''"

definition sanity_check ::
  "real \<Rightarrow> vec2 \<Rightarrow> mat2 \<Rightarrow> vec2 \<Rightarrow> real list \<Rightarrow> py_error + string list" where
  "sanity_check K S0 CHOLESKY MU grid_points =
     (if grid_points = [] then Inl IndexError
      else if K \<ge> max_asset_value S0 CHOLESKY MU (last grid_points)
           then Inr [warning_text]
           else Inr [])"

subsection \<open>Fifth cell: precision utilities\<close>

definition FRAC_PLACES :: nat where
  "FRAC_PLACES = 2"

text \<open>
  The largest double, \<open>sys.float_info.max = (2\<^sup>5\<^sup>3 - 1) * 2\<^sup>9\<^sup>7\<^sup>1\<close>. A product of two doubles
  beyond it is \<open>inf\<close>.
\<close>

definition float_max :: real where
  "float_max = (2 ^ 53 - 1) * 2 ^ 971"

text \<open>Python's \<open>round\<close> with one argument: the nearest integer, a tie going to the even one.\<close>

definition py_round :: "real \<Rightarrow> int" where
  "py_round x =
     (let f = \<lfloor>x\<rfloor>; d = x - of_int f
      in if d < 1 / 2 then f
         else if 1 / 2 < d then f + 1
         else if even f then f else f + 1)"

text \<open>
  \<^verbatim>\<open>
  def round_factor(a):
      precision_factor = 2**FRAC_PLACES
      return round(a * precision_factor) / precision_factor

  def floor_factor(a):
      precision_factor = 2**FRAC_PLACES
      return np.floor(a * precision_factor) / precision_factor
  \<close>
  The argument is a double. Multiplying a double by the power of two \<open>2**FRAC_PLACES\<close>
  is exact unless the product exceeds \<open>float_max\<close>, and then the product is \<open>inf\<close>:
  \<open>round\<close> raises \<open>OverflowError\<close> on it, and \<open>np.floor\<close> returns it, so that
  \<open>floor_factor\<close> returns \<open>inf\<close> or \<open>-inf\<close>. Below that bound the rounded or floored
  product is an integer that is a double, and its quotient by \<open>2**FRAC_PLACES\<close> is
  exact as well.
\<close>

definition round_factor :: "real \<Rightarrow> py_error + real" where
  "round_factor a =
     (let precision_factor = 2 ^ FRAC_PLACES;
          product = a * precision_factor
      in if float_max < \<bar>product\<bar> then Inl OverflowError
         else Inr (of_int (py_round product) / precision_factor))"

definition floor_factor :: "real \<Rightarrow> npfloat" where
  "floor_factor a =
     (let precision_factor = 2 ^ FRAC_PLACES;
          product = a * precision_factor
      in if float_max < \<bar>product\<bar> then None
         else Some (of_int \<lfloor>product\<rfloor> / precision_factor))"

subsection \<open>Post-processing and the final assertion\<close>

record iqae_result =
  estimation :: real
  confidence_interval :: "real \<times> real"

text \<open>
  \<^verbatim>\<open>
  def parse_result_integration(iqae_res):
      exp_rate = (1 / (2**MAX_FRAC_PLACES)) * a
      B = (np.exp((2**MAX_NUM_QUBITS) * exp_rate) - 1) / np.exp(exp_rate)
      A = 1 / np.exp(exp_rate)
      C = S0[0] * np.exp((MU[0] + MIN_X * CHOLESKY[0].sum()))
      option_value = (iqae_res.estimation * (C * B)) + (C * A) - K
      confidence_interval = (
          (np.array(iqae_res.confidence_interval) * (C * B)) + (C * A) - K
      )
      return (option_value, confidence_interval)
  \<close>
  The globals the function reads are its first parameters. \<open>MAX_NUM_QUBITS\<close> and
  \<open>MAX_FRAC_PLACES\<close> are the register size and the number of fraction digits that the
  SDK reports, natural numbers.
\<close>

definition parse_result_integration ::
  "real \<Rightarrow> nat \<Rightarrow> nat \<Rightarrow> vec2 \<Rightarrow> vec2 \<Rightarrow> real \<Rightarrow> mat2 \<Rightarrow> real \<Rightarrow> iqae_result
     \<Rightarrow> real \<times> (real \<times> real)" where
  "parse_result_integration a MAX_FRAC_PLACES MAX_NUM_QUBITS S0 MU MIN_X CHOLESKY K iqae_res =
     (let exp_rate = (1 / (2 ^ MAX_FRAC_PLACES)) * a;
          B = (exp ((2 ^ MAX_NUM_QUBITS) * exp_rate) - 1) / exp exp_rate;
          A = 1 / exp exp_rate;
          C = fst S0 * exp (fst MU + MIN_X * (fst (fst CHOLESKY) + snd (fst CHOLESKY)));
          option_value = (estimation iqae_res * (C * B)) + (C * A) - K;
          confidence_interval' =
            (fst (confidence_interval iqae_res) * (C * B) + (C * A) - K,
             snd (confidence_interval iqae_res) * (C * B) + (C * A) - K)
      in (option_value, confidence_interval'))"

text \<open>
  \<^verbatim>\<open>assert not (conf_interval[1] < -5 or 45 < conf_interval[0])\<close>
\<close>

definition post_hoc_assertion :: "real \<times> real \<Rightarrow> py_error + unit" where
  "post_hoc_assertion conf_interval =
     (if \<not> (snd conf_interval < - 5 \<or> 45 < fst conf_interval) then Inr ()
      else Inl AssertionError)"


section \<open>Properties of the neighbour-probability vector\<close>

lemma C_iteration_first: "C_iteration 0 = Inr ((replicate 16 0)[1 := 1])"
  by (simp add: C_iteration_def list_setitem_def)

lemma C_iteration_last: "C_iteration 15 = Inr ((replicate 16 0)[14 := 1])"
  by (simp add: C_iteration_def list_setitem_def)

lemma C_iteration_interior:
  assumes "0 < i" "i < 15"
  shows "C_iteration i = Inr ((replicate 16 0)[nat (i - 1) := 1 / 2, nat (i + 1) := 1 / 2])"
  using assms by (simp add: C_iteration_def list_setitem_def)

lemma sum_list_replicate_zero: "sum_list (replicate n (0::real)) = 0"
  by (induction n) simp_all

lemma sum_list_update_real:
  "k < length xs \<Longrightarrow> sum_list (xs[k := x]) = sum_list xs + x - (xs ! k :: real)"
proof (induction xs arbitrary: k)
  case Nil
  then show ?case by simp
next
  case (Cons y ys)
  then show ?case by (cases k) simp_all
qed

text \<open>
  Claim C1. For every node \<open>i\<close> of the line of 16 nodes, \<open>C_iteration\<close> builds a vector of
  16 entries: node 0 puts probability 1 on node 1, node 15 puts probability 1 on node
  14, every other node puts 1/2 on \<open>i - 1\<close> and 1/2 on \<open>i + 1\<close>; all other entries are 0
  and the entries sum to 1. Node 0 gives \<open>[0, 1, 0, ..., 0]\<close> and node 5 gives 1/2 at
  the indices 4 and 6 and 0 elsewhere.
\<close>

theorem C_iteration_neighbour_probabilities:
  "(\<forall>i. 0 \<le> i \<and> i < 16 \<longrightarrow>
      (\<exists>prob. C_iteration i = Inr prob \<and> length prob = 16 \<and>
         (i = 0 \<longrightarrow> (\<forall>j<16. prob ! j = (if j = 1 then 1 else 0))) \<and>
         (i = 15 \<longrightarrow> (\<forall>j<16. prob ! j = (if j = 14 then 1 else 0))) \<and>
         (0 < i \<and> i < 15 \<longrightarrow>
            (\<forall>j<16. prob ! j = (if int j = i - 1 \<or> int j = i + 1 then 1 / 2 else 0))) \<and>
         sum_list prob = 1))
   \<and> C_iteration 0 = Inr [0, 1, 0, 0, 0, 0, 0, 0, 0, 0, 0, 0, 0, 0, 0, 0]
   \<and> C_iteration 5 = Inr [0, 0, 0, 0, 1 / 2, 0, 1 / 2, 0, 0, 0, 0, 0, 0, 0, 0, 0]"
proof (intro conjI allI impI)
  fix i :: int
  assume range: "0 \<le> i \<and> i < 16"
  consider "i = 0" | "i = 15" | "0 < i" "i < 15"
    using range by linarith
  then show "\<exists>prob. C_iteration i = Inr prob \<and> length prob = 16 \<and>
         (i = 0 \<longrightarrow> (\<forall>j<16. prob ! j = (if j = 1 then 1 else 0))) \<and>
         (i = 15 \<longrightarrow> (\<forall>j<16. prob ! j = (if j = 14 then 1 else 0))) \<and>
         (0 < i \<and> i < 15 \<longrightarrow>
            (\<forall>j<16. prob ! j = (if int j = i - 1 \<or> int j = i + 1 then 1 / 2 else 0))) \<and>
         sum_list prob = 1"
  proof cases
    case 1
    then show ?thesis
      by (simp add: C_iteration_first sum_list_update_real sum_list_replicate_zero)
  next
    case 2
    then show ?thesis
      by (simp add: C_iteration_last sum_list_update_real sum_list_replicate_zero)
  next
    case 3
    have neq: "nat (i - 1) \<noteq> nat (i + 1)" using 3 by linarith
    have "sum_list ((replicate 16 (0::real))[nat (i - 1) := 1 / 2, nat (i + 1) := 1 / 2]) = 1"
      using 3 neq by (simp add: sum_list_update_real sum_list_replicate_zero)
    moreover have "\<forall>j<16. (replicate 16 (0::real))[nat (i - 1) := 1 / 2, nat (i + 1) := 1 / 2] ! j
         = (if int j = i - 1 \<or> int j = i + 1 then 1 / 2 else 0)"
      using 3 by (auto simp: nth_list_update)
    ultimately show ?thesis
      using 3 by (simp add: C_iteration_interior)
  qed
next
  show "C_iteration 0 = Inr [0, 1, 0, 0, 0, 0, 0, 0, 0, 0, 0, 0, 0, 0, 0, 0]"
    by (simp add: C_iteration_def list_setitem_def numeral_eq_Suc)
next
  show "C_iteration 5 = Inr [0, 0, 0, 0, 1 / 2, 0, 1 / 2, 0, 0, 0, 0, 0, 0, 0, 0, 0]"
    by (simp add: C_iteration_def list_setitem_def numeral_eq_Suc)
qed

theorem C_iteration_neighbour_probabilities_witness:
  "(0::int) \<le> 7 \<and> (7::int) < 16 \<and>
   (\<exists>prob. C_iteration 7 = Inr prob \<and> length prob = 16 \<and>
      prob ! 6 = 1 / 2 \<and> prob ! 7 = 0 \<and> prob ! 8 = 1 / 2 \<and> sum_list prob = 1)"
proof -
  have "0 \<le> (7::int) \<and> (7::int) < 16" by simp
  with C_iteration_neighbour_probabilities
  obtain prob where p: "C_iteration 7 = Inr prob" "length prob = 16"
      "\<forall>j<16. prob ! j = (if int j = 7 - 1 \<or> int j = 7 + 1 then 1 / 2 else 0)"
      "sum_list prob = 1"
    by fastforce
  from p(3) have "prob ! 6 = 1 / 2" "prob ! 7 = 0" "prob ! 8 = 1 / 2"
    by simp_all
  with p show ?thesis by simp
qed

text \<open>
  Claim C10. For every node \<open>i\<close> in \<open>0..15\<close> the vector built by \<open>C_iteration\<close> gives
  probability 0 to node \<open>i\<close> itself, and every node with a non-zero probability is
  \<open>i - 1\<close> or \<open>i + 1\<close>.
\<close>

theorem C_iteration_support:
  assumes "0 \<le> i" "i < 16"
  shows "\<exists>prob. C_iteration i = Inr prob \<and> length prob = 16 \<and> prob ! nat i = 0 \<and>
           (\<forall>j<length prob. prob ! j \<noteq> 0 \<longrightarrow> int j = i - 1 \<or> int j = i + 1)"
proof -
  consider "i = 0" | "i = 15" | "0 < i" "i < 15"
    using assms by linarith
  then show ?thesis
  proof cases
    case 1
    then show ?thesis
      by (auto simp: C_iteration_first nth_list_update)
  next
    case 2
    then show ?thesis
      by (auto simp: C_iteration_last nth_list_update)
  next
    case 3
    have "nat i \<noteq> nat (i - 1)" "nat i \<noteq> nat (i + 1)" "nat i < 16"
      using 3 by linarith+
    then show ?thesis
      using 3 by (auto simp: C_iteration_interior nth_list_update)
  qed
qed

theorem C_iteration_support_witness:
  "(0::int) \<le> 5 \<and> (5::int) < 16 \<and>
   (\<exists>prob. C_iteration 5 = Inr prob \<and> length prob = 16 \<and> prob ! nat 5 = 0 \<and>
      (\<forall>j<length prob. prob ! j \<noteq> 0 \<longrightarrow> int j = 5 - 1 \<or> int j = 5 + 1))"
  using C_iteration_support [of 5] by simp

section \<open>The standard normal distribution function\<close>

text \<open>
  The series converges everywhere, its sum has the normal density as derivative and
  the value 1/2 at 0, so \<open>std_normal_cdf\<close> is \<open>\<Phi>\<close>; and \<open>\<Phi>\<close> is strictly increasing.
\<close>

lemma std_normal_series_summable: "summable (\<lambda>n. std_normal_coeff n * x ^ n)"
proof -
  define g where "g k = (- 1 / 2) ^ k / (fact k * real (2 * k + 1)) * x ^ (2 * k + 1)" for k
  have "summable (\<lambda>k. \<bar>x\<bar> * (inverse (fact k) * (x\<^sup>2) ^ k))"
    by (intro summable_mult summable_exp)
  moreover have "norm (g k) \<le> \<bar>x\<bar> * (inverse (fact k) * (x\<^sup>2) ^ k)" for k
  proof -
    define y where "y = (x\<^sup>2) ^ k"
    define c where "c = (- 1 / 2 :: real) ^ k"
    have y: "0 \<le> y" by (simp add: y_def)
    have "x ^ (2 * k) = y"
      unfolding y_def by (rule power_mult)
    then have "x ^ (2 * k + 1) = x * y"
      by (simp only: power_add power_one_right mult.commute)
    then have "g k = c / (fact k * real (2 * k + 1)) * (x * y)"
      by (simp only: g_def c_def)
    also have "\<dots> = x * (inverse (fact k) * y) * (c / real (2 * k + 1))"
      by (simp add: divide_inverse)
    finally have "norm (g k) = \<bar>x\<bar> * (inverse (fact k) * y) * (\<bar>c\<bar> / real (2 * k + 1))"
      using y by (simp add: abs_mult)
    also have "\<bar>c\<bar> = (1 / 2) ^ k"
      by (simp add: c_def power_abs)
    finally have "norm (g k) = \<bar>x\<bar> * (inverse (fact k) * (x\<^sup>2) ^ k) * ((1 / 2) ^ k / real (2 * k + 1))"
      by (simp only: y_def)
    also have "\<dots> \<le> \<bar>x\<bar> * (inverse (fact k) * (x\<^sup>2) ^ k) * 1"
    proof (rule mult_left_mono)
      have "(1 / 2 :: real) ^ k \<le> 1" by (simp add: power_le_one)
      moreover have "1 \<le> real (2 * k + 1)" by simp
      ultimately show "(1 / 2) ^ k / real (2 * k + 1) \<le> 1"
        by (smt (verit) divide_le_eq_1 zero_le_power divide_nonneg_nonneg)
      show "0 \<le> \<bar>x\<bar> * (inverse (fact k) * (x\<^sup>2) ^ k)" by simp
    qed
    finally show ?thesis by simp
  qed
  ultimately have "summable g"
    by (rule summable_comparison_test' [where N = 0])
  then have "(\<lambda>n. if even n then 0 else g ((n - 1) div 2)) sums suminf g"
    by (intro sums_if' summable_sums)
  moreover have "(if even n then 0 else g ((n - 1) div 2)) = std_normal_coeff n * x ^ n" for n
    by (auto simp: g_def std_normal_coeff_def elim!: oddE)
  ultimately show ?thesis
    by (simp add: sums_iff)
qed

lemma diffs_std_normal_coeff:
  "diffs std_normal_coeff n = (if even n then (- 1 / 2) ^ (n div 2) / fact (n div 2) else 0)"
  by (auto simp: diffs_def std_normal_coeff_def elim!: evenE)

lemma std_normal_density_series:
  "(\<lambda>n. diffs std_normal_coeff n * x ^ n) sums exp (- (x\<^sup>2) / 2)"
proof -
  define f where "f k = (- (x\<^sup>2) / 2) ^ k / fact k" for k
  have "f sums exp (- (x\<^sup>2) / 2)"
  proof -
    have "(\<lambda>k. (- (x\<^sup>2) / 2) ^ k /\<^sub>R fact k) = f"
      by (rule ext) (simp only: f_def real_scaleR_def divide_inverse mult.commute)
    with exp_converges [of "- (x\<^sup>2) / 2"] show ?thesis by simp
  qed
  from sums_if [OF sums_zero this]
  have "(\<lambda>n. if even n then f (n div 2) else 0) sums exp (- (x\<^sup>2) / 2)" by simp
  moreover have "(if even n then f (n div 2) else 0) = diffs std_normal_coeff n * x ^ n" for n
  proof (cases "even n")
    case True
    then obtain k where n: "n = 2 * k" by (elim evenE)
    have "(- (x\<^sup>2) / 2) ^ k = (- 1 / 2) ^ k * (x\<^sup>2) ^ k"
      by (simp add: power_mult_distrib [symmetric])
    then have "f k = (- 1 / 2) ^ k / fact k * x ^ (2 * k)"
      by (simp add: f_def power_mult)
    then show ?thesis by (simp add: n diffs_std_normal_coeff)
  next
    case False
    then show ?thesis by (simp add: diffs_std_normal_coeff)
  qed
  ultimately show ?thesis by simp
qed

lemma DERIV_std_normal_cdf:
  "DERIV std_normal_cdf x :> exp (- (x\<^sup>2) / 2) / sqrt (2 * pi)"
proof -
  have "DERIV (\<lambda>x. \<Sum>n. std_normal_coeff n * x ^ n) x :> (\<Sum>n. diffs std_normal_coeff n * x ^ n)"
    by (rule termdiffs_strong [where K = "\<bar>x\<bar> + 1"]) (simp_all add: std_normal_series_summable)
  also have "(\<Sum>n. diffs std_normal_coeff n * x ^ n) = exp (- (x\<^sup>2) / 2)"
    using std_normal_density_series [of x] by (simp add: sums_iff)
  finally have "DERIV (\<lambda>x. \<Sum>n. std_normal_coeff n * x ^ n) x :> exp (- (x\<^sup>2) / 2)" .
  then have "DERIV (\<lambda>x. (\<Sum>n. std_normal_coeff n * x ^ n) / sqrt (2 * pi)) x
      :> exp (- (x\<^sup>2) / 2) / sqrt (2 * pi)"
    by (rule DERIV_cdivide)
  from DERIV_add [OF DERIV_const [of "1 / 2"] this] show ?thesis
    unfolding std_normal_cdf_def [abs_def] by simp
qed

lemma std_normal_cdf_0: "std_normal_cdf 0 = 1 / 2"
proof -
  have "(\<Sum>n. std_normal_coeff n * 0 ^ n) = std_normal_coeff 0 * 0 ^ 0"
    by (rule suminf_finite [where N = "{0}", simplified]) (auto simp: power_0_left)
  then show ?thesis by (simp add: std_normal_cdf_def std_normal_coeff_def)
qed

lemma strict_mono_std_normal_cdf: "strict_mono std_normal_cdf"
proof (rule strict_monoI)
  fix a b :: real
  assume "a < b"
  then show "std_normal_cdf a < std_normal_cdf b"
  proof (rule DERIV_pos_imp_increasing)
    fix x
    have "0 < exp (- (x\<^sup>2) / 2) / sqrt (2 * pi)"
      by (intro divide_pos_pos exp_gt_zero) simp
    with DERIV_std_normal_cdf [of x]
    show "\<exists>y. DERIV std_normal_cdf x :> y \<and> 0 < y" by blast
  qed
qed

section \<open>Properties of the derived scaling constants\<close>

lemma cholesky_pd:
  assumes "0 < a00" "a10 * a10 < a00 * a11"
  shows "cholesky ((a00, a01), (a10, a11))
           = Inr ((sqrt a00, 0), (a10 / sqrt a00, sqrt (a11 - a10 * a10 / a00)))"
proof -
  have sq: "a10 / sqrt a00 * (a10 / sqrt a00) = a10 * a10 / a00"
    using assms(1) by (simp add: power2_eq_square [symmetric] power_divide)
  have "a10 * a10 / a00 < a11"
    using assms by (simp add: divide_less_eq mult.commute)
  then show ?thesis
    using assms(1) by (simp add: cholesky_def Let_def sq)
qed

text \<open>
  The model of \<open>np.linalg.cholesky\<close> returns a factor: a lower-triangular \<open>L\<close> with
  positive diagonal whose product with its transpose has the lower triangle and the
  diagonal of the argument.
\<close>

lemma cholesky_is_factor:
  assumes "cholesky ((a00, a01), (a10, a11)) = Inr ((l00, l01), (l10, l11))"
  shows "l01 = 0 \<and> 0 < l00 \<and> 0 < l11 \<and>
         l00 * l00 = a00 \<and> l10 * l00 = a10 \<and> l10 * l10 + l11 * l11 = a11"
proof -
  have pos: "0 < a00" and r: "0 < a11 - a10 / sqrt a00 * (a10 / sqrt a00)"
    using assms by (auto simp: cholesky_def Let_def split: if_splits)
  have L: "l00 = sqrt a00" "l01 = 0" "l10 = a10 / sqrt a00"
      "l11 = sqrt (a11 - a10 / sqrt a00 * (a10 / sqrt a00))"
    using assms by (auto simp: cholesky_def Let_def split: if_splits)
  have "l11 * l11 = a11 - l10 * l10"
    using r by (simp add: L)
  then show ?thesis
    using pos r by (simp add: L)
qed

text \<open>
  Claim C7. \<open>MU\<close>, \<open>CHOLESKY\<close> and \<open>SCALING_FACTOR\<close> are functions of \<open>dt\<close>, \<open>COV\<close> and
  \<open>MU_LOG_RET\<close> alone (the cell reads neither \<open>K\<close> nor \<open>S0\<close>), so two evaluations on
  the same inputs give the same constants. For a covariance matrix with positive
  pivots and a positive \<open>dt\<close> the cell returns the closed forms below; in particular
  \<open>SCALING_FACTOR = 1 / (sqrt (COV[0,0]) * sqrt dt)\<close>, and the diagonal of \<open>CHOLESKY\<close>
  is \<open>sqrt (COV[0,0]) * sqrt dt\<close> and \<open>sqrt (COV[1,1] - COV[1,0]\<^sup>2 / COV[0,0]) * sqrt dt\<close>.
\<close>

theorem derived_constants_closed_form:
  assumes "0 < a00" "a10 * a10 < a00 * a11" "0 < dt"
  shows "derived_constants dt ((a00, a01), (a10, a11)) (m0, m1)
           = Inr ((m0 * dt, m1 * dt),
                  Some ((sqrt a00 * sqrt dt, 0),
                        (a10 / sqrt a00 * sqrt dt, sqrt (a11 - a10 * a10 / a00) * sqrt dt)),
                  Some (1 / (sqrt a00 * sqrt dt)))"
  using assms by (simp add: derived_constants_def cholesky_pd np_sqrt_def mat_scale_def Let_def)

text \<open>
  The witness is the notebook's own data: \<open>dt = 250\<close>,
  \<open>COV = [[0.000335, 0.000257], [0.000257, 0.000418]]\<close> and
  \<open>MU_LOG_RET = [0.00050963, 0.00062552]\<close>.
\<close>

theorem derived_constants_closed_form_witness:
  "(0::real) < 335 / 1000000 \<and>
   (257 / 1000000) * (257 / 1000000) < (335 / 1000000 :: real) * (418 / 1000000) \<and>
   (0::real) < 250 \<and>
   derived_constants 250
       ((335 / 1000000, 257 / 1000000), (257 / 1000000, 418 / 1000000))
       (50963 / 100000000, 62552 / 100000000)
     = Inr ((50963 / 100000000 * 250, 62552 / 100000000 * 250),
            Some ((sqrt (335 / 1000000) * sqrt 250, 0),
                  (257 / 1000000 / sqrt (335 / 1000000) * sqrt 250,
                   sqrt (418 / 1000000 - 257 / 1000000 * (257 / 1000000) / (335 / 1000000))
                     * sqrt 250)),
            Some (1 / (sqrt (335 / 1000000) * sqrt 250)))"
proof -
  have h1: "(0::real) < 335 / 1000000" by simp
  have h2: "(257 / 1000000) * (257 / 1000000) < (335 / 1000000 :: real) * (418 / 1000000)"
    by simp
  have h3: "(0::real) < 250" by simp
  from derived_constants_closed_form [OF h1 h2 h3, of "257 / 1000000" "50963 / 100000000"
      "62552 / 100000000"] h1 h2 h3
  show ?thesis by blast
qed

section \<open>Properties of the Gaussian discretization\<close>

lemma length_linspace: "length (linspace start stop num) = num"
  by (simp add: linspace_def)

lemma nth_linspace:
  "i < num \<Longrightarrow> linspace start stop num ! i = start + real i * ((stop - start) / real (num - 1))"
  by (simp add: linspace_def)

lemma linspace_nonempty: "linspace start stop (Suc m) \<noteq> []"
  by (simp add: linspace_def)

lemma hd_linspace: "hd (linspace start stop (Suc m)) = start"
  by (simp add: linspace_def hd_map upt_conv_Cons del: upt_Suc)

lemma last_linspace: "0 < m \<Longrightarrow> last (linspace start stop (Suc m)) = stop"
  by (simp add: linspace_def)

text \<open>The differences of neighbours, \<open>ys[1:] - ys[0:-1]\<close>, telescope.\<close>

lemma sum_list_neighbour_differences:
  "ys \<noteq> [] \<Longrightarrow>
   sum_list (map (\<lambda>(u, v). u - v) (zip (tl ys) (butlast ys))) = last ys - (hd ys :: real)"
proof (induction ys)
  case Nil
  then show ?case by simp
next
  case (Cons y ys)
  show ?case
  proof (cases ys)
    case Nil
    then show ?thesis by simp
  next
    case (Cons z zs)
    with Cons.IH have "sum_list (map (\<lambda>(u, v). u - v) (zip (tl ys) (butlast ys))) = last ys - z"
      by simp
    with Cons show ?thesis by simp
  qed
qed

lemma nth_neighbour_differences:
  assumes "Suc i < length ys"
  shows "map (\<lambda>(u, v). u - v) (zip (tl ys) (butlast ys)) ! i = ys ! Suc i - (ys ! i :: real)"
  using assms by (simp add: nth_tl nth_butlast)

lemma np_sum_Some_aux: "foldl np_add (Some a) (map Some rs) = Some (a + sum_list rs)"
  by (induction rs arbitrary: a) (simp_all add: np_add_def add.assoc)

lemma np_sum_Some: "np_sum (map Some rs) = Some (sum_list rs)"
  by (simp add: np_sum_def np_sum_Some_aux)

lemma np_sub_zip_Some:
  "map (\<lambda>(u, v). np_sub u v) (zip (map Some as) (map Some bs))
     = map Some (map (\<lambda>(u, v). u - v) (zip as bs))"
  by (induction as bs rule: list_induct2') (simp_all add: np_sub_def)

lemma single_gaussian_Some:
  assumes "0 < sigma"
  shows "single_gaussian xs mu sigma
           = map Some (map (\<lambda>(u, v). u - v)
               (zip (tl (map (\<lambda>p. std_normal_cdf ((p - mu) / sigma)) xs))
                    (butlast (map (\<lambda>p. std_normal_cdf ((p - mu) / sigma)) xs))))"
proof -
  let ?ys = "map (\<lambda>p. std_normal_cdf ((p - mu) / sigma)) xs"
  have cdf: "map (\<lambda>p. norm_cdf p mu sigma) xs = map Some ?ys"
    using assms by (simp add: norm_cdf_def)
  have "tl (map Some ?ys) = map Some (tl ?ys)" "butlast (map Some ?ys) = map Some (butlast ?ys)"
    by (simp_all only: map_tl map_butlast)
  then show ?thesis
    unfolding single_gaussian_def Let_def cdf
    by (simp only: np_sub_zip_Some)
qed

lemma length_single_gaussian: "length (single_gaussian xs m s) = length xs - 1"
  by (simp add: single_gaussian_def Let_def)

lemma fst_gaussian_discretization:
  "fst (gaussian_discretization n mu sigma stds)
     = butlast (linspace (mu - stds * sigma) (mu + stds * sigma) (2 ^ n + 1))"
  by (simp add: gaussian_discretization_def Let_def)

lemma length_snd_gaussian_discretization:
  "length (snd (gaussian_discretization n mu sigma stds)) = 2 ^ n"
  by (simp add: gaussian_discretization_def Let_def length_single_gaussian length_linspace)

text \<open>
  Claim C2, as amended. For every number of qubits \<open>n\<close> and all arguments in the range
  that double precision resolves, the probabilities returned by
  \<open>gaussian_discretization\<close> are finite numbers, one per bin, and sum to 1: they are
  the \<open>2 ^ n\<close> differences of the distribution function at neighbouring sample points,
  each divided by the sum of all of them, a sum that is not 0. The range is: \<open>sigma\<close>
  positive; \<open>stds_around_mean_to_include\<close> at least \<open>2\<^bsup>-40\<^esup>\<close> in absolute value, so that
  the distribution function differs at the two ends; \<open>mu\<close> at most \<open>2\<^sup>4\<^sup>0\<close> times the half
  width \<open>|stds_around_mean_to_include| * sigma\<close>, so that \<open>mu\<close> does not absorb it; the
  half width at least \<open>2\<^bsup>-1000\<^esup>\<close> and \<open>|mu|\<close> plus the half width at most \<open>2\<^sup>1\<^sup>0\<^sup>0\<^sup>0\<close>.
\<close>

theorem gaussian_discretization_sums_to_one:
  assumes sigma: "0 < sigma"
    and stds: "1 / 2 ^ 40 \<le> \<bar>stds\<bar>"
    and mu: "\<bar>mu\<bar> \<le> 2 ^ 40 * (\<bar>stds\<bar> * sigma)"
    and width_lo: "1 / 2 ^ 1000 \<le> \<bar>stds\<bar> * sigma"
    and width_hi: "\<bar>mu\<bar> + \<bar>stds\<bar> * sigma \<le> 2 ^ 1000"
  shows "\<exists>raw. length raw = 2 ^ n \<and>
           (\<forall>i<2 ^ n. raw ! i =
              std_normal_cdf ((linspace (mu - stds * sigma) (mu + stds * sigma) (2 ^ n + 1) ! Suc i - mu) / sigma)
              - std_normal_cdf ((linspace (mu - stds * sigma) (mu + stds * sigma) (2 ^ n + 1) ! i - mu) / sigma)) \<and>
           sum_list raw \<noteq> 0 \<and>
           snd (gaussian_discretization n mu sigma stds) = map (\<lambda>r. Some (r / sum_list raw)) raw \<and>
           sum_list (map (\<lambda>r. r / sum_list raw) raw) = 1 \<and>
           np_sum (snd (gaussian_discretization n mu sigma stds)) = Some 1"
proof -
  have stds_nz: "stds \<noteq> 0"
  proof
    assume "stds = 0"
    with stds have "(1::real) / 2 ^ 40 \<le> 0" by simp
    then show False by simp
  qed
  define lower where "lower = mu - stds * sigma"
  define upper where "upper = mu + stds * sigma"
  define pts where "pts = linspace lower upper (Suc (2 ^ n))"
  define F where "F = (\<lambda>p. std_normal_cdf ((p - mu) / sigma))"
  define raw where "raw = map (\<lambda>(u, v). u - v) (zip (tl (map F pts)) (butlast (map F pts)))"
  have len_pts: "length pts = Suc (2 ^ n)" by (simp add: pts_def length_linspace)
  then have ne: "map F pts \<noteq> []" by auto
  have "sum_list raw = last (map F pts) - hd (map F pts)"
    unfolding raw_def by (rule sum_list_neighbour_differences [OF ne])
  also have "\<dots> = F (last pts) - F (hd pts)"
    using ne by (simp add: last_map hd_map)
  also have "\<dots> = F upper - F lower"
    unfolding pts_def by (simp add: last_linspace hd_linspace)
  also have "\<dots> = std_normal_cdf stds - std_normal_cdf (- stds)"
    using sigma by (simp add: F_def upper_def lower_def)
  finally have total: "sum_list raw = std_normal_cdf stds - std_normal_cdf (- stds)" .
  have "std_normal_cdf stds \<noteq> std_normal_cdf (- stds)"
    using stds_nz strict_mono_eq [OF strict_mono_std_normal_cdf, of stds "- stds"] by simp
  with total have nz: "sum_list raw \<noteq> 0" by simp
  have len: "length raw = 2 ^ n"
    by (simp add: raw_def len_pts)
  have nth: "\<forall>i<2 ^ n. raw ! i = F (pts ! Suc i) - F (pts ! i)"
  proof (intro allI impI)
    fix i :: nat
    assume i: "i < 2 ^ n"
    then have "Suc i < length (map F pts)" by (simp add: len_pts)
    from nth_neighbour_differences [OF this] i show "raw ! i = F (pts ! Suc i) - F (pts ! i)"
      by (simp add: raw_def len_pts)
  qed
  have sg: "single_gaussian pts mu sigma = map Some raw"
    unfolding raw_def F_def by (rule single_gaussian_Some [OF sigma])
  have "snd (gaussian_discretization n mu sigma stds)
      = map (\<lambda>p. np_divide p (np_sum (single_gaussian pts mu sigma))) (single_gaussian pts mu sigma)"
    by (simp add: gaussian_discretization_def Let_def pts_def lower_def upper_def)
  also have "\<dots> = map (\<lambda>p. np_divide p (Some (sum_list raw))) (map Some raw)"
    by (simp only: sg np_sum_Some)
  also have "\<dots> = map (\<lambda>r. Some (r / sum_list raw)) raw"
    using nz by (simp add: np_divide_def)
  finally have probs: "snd (gaussian_discretization n mu sigma stds)
      = map (\<lambda>r. Some (r / sum_list raw)) raw" .
  have "sum_list (map (\<lambda>r. r / sum_list raw) raw) = sum_list raw / sum_list raw"
    by (simp add: divide_inverse sum_list_mult_const)
  with nz have one: "sum_list (map (\<lambda>r. r / sum_list raw) raw) = 1" by simp
  have "map (\<lambda>r. Some (r / sum_list raw)) raw = map Some (map (\<lambda>r. r / sum_list raw) raw)"
    by (simp add: comp_def)
  then have "np_sum (snd (gaussian_discretization n mu sigma stds)) = Some 1"
    unfolding probs using one by (simp only: np_sum_Some)
  with len nz probs one nth show ?thesis
    unfolding F_def pts_def lower_def upper_def Suc_eq_plus1 by blast
qed

theorem gaussian_discretization_sums_to_one_witness:
  "(0::real) < 1 \<and> 1 / 2 ^ 40 \<le> \<bar>3::real\<bar> \<and> \<bar>0::real\<bar> \<le> 2 ^ 40 * (\<bar>3\<bar> * 1) \<and>
   1 / 2 ^ 1000 \<le> \<bar>3::real\<bar> * 1 \<and> \<bar>0::real\<bar> + \<bar>3\<bar> * 1 \<le> 2 ^ 1000 \<and>
   length (snd (gaussian_discretization 2 0 1 3)) = 4 \<and>
   np_sum (snd (gaussian_discretization 2 0 1 3)) = Some 1"
proof -
  have h: "(0::real) < 1" "1 / 2 ^ 40 \<le> \<bar>3::real\<bar>" "\<bar>0::real\<bar> \<le> 2 ^ 40 * (\<bar>3\<bar> * 1)"
      "1 / 2 ^ 1000 \<le> \<bar>3::real\<bar> * 1" "\<bar>0::real\<bar> + \<bar>3\<bar> * 1 \<le> 2 ^ 1000"
    by simp_all
  from gaussian_discretization_sums_to_one [OF h, of 2]
  obtain raw where "length raw = 2 ^ 2"
      "snd (gaussian_discretization 2 0 1 3) = map (\<lambda>r. Some (r / sum_list raw)) raw"
      "np_sum (snd (gaussian_discretization 2 0 1 3)) = Some 1"
    by blast
  then have "length (snd (gaussian_discretization 2 0 1 3)) = 4"
      "np_sum (snd (gaussian_discretization 2 0 1 3)) = Some 1"
    by simp_all
  with h show ?thesis by blast
qed

text \<open>
  Claim C2 as stated fails for \<open>stds_around_mean_to_include = 0\<close>: all sample points
  are \<open>mu\<close>, every difference is 0, the sum is 0, and each returned probability is
  \<open>0.0 / 0.0\<close>, not a number; so is their sum. The same happens for \<open>sigma = 0\<close>. (In a
  run it also happens where doubles absorb the width, as for
  \<open>stds_around_mean_to_include = 1e-17\<close> or for \<open>mu = 1e17\<close>; the amended claim leaves that
  range out.)
\<close>

theorem gaussian_discretization_zero_width_counterexample:
  "snd (gaussian_discretization 2 0 1 0) = [None, None, None, None]
   \<and> np_sum (snd (gaussian_discretization 2 0 1 0)) = None
   \<and> snd (gaussian_discretization 2 0 0 3) = [None, None, None, None]
   \<and> np_sum (snd (gaussian_discretization 2 0 0 3)) = None"
  by (simp add: gaussian_discretization_def linspace_def single_gaussian_def norm_cdf_def
      np_sub_def np_sum_def np_add_def np_divide_def numeral_eq_Suc)

text \<open>
  Claim C8, as amended. For every \<open>n \<ge> 1\<close>, every \<open>mu\<close>, every positive \<open>sigma\<close> and
  every positive \<open>stds_around_mean_to_include\<close> in the range that double precision
  resolves, \<open>gaussian_discretization\<close> returns two lists of length \<open>2 ^ n\<close>. The grid
  points are the first \<open>2 ^ n\<close> points of the uniform partition of \<open>[lower, upper]\<close> into
  \<open>2 ^ n + 1\<close> points, where \<open>lower = mu - stds * sigma\<close> and \<open>upper = mu + stds * sigma\<close>:
  the \<open>i\<close>-th is \<open>lower + i * step\<close> with the positive step \<open>(upper - lower) / 2 ^ n\<close>, so
  they are strictly increasing. The range is: the step at least one part in \<open>2\<^sup>4\<^sup>0\<close> of
  \<open>|mu| + stds * sigma\<close>, the largest magnitude on the grid, so that neighbouring grid
  points are different doubles; the step at least \<open>2\<^bsup>-1000\<^esup>\<close> and that magnitude at most
  \<open>2\<^sup>1\<^sup>0\<^sup>0\<^sup>0\<close>.
\<close>

theorem gaussian_discretization_grid:
  assumes "1 \<le> n" "0 < sigma" "0 < stds"
    and resolved: "\<bar>mu\<bar> + stds * sigma \<le> 2 ^ 40 * (2 * (stds * sigma) / 2 ^ n)"
    and step_lo: "1 / 2 ^ 1000 \<le> 2 * (stds * sigma) / 2 ^ n"
    and width_hi: "\<bar>mu\<bar> + stds * sigma \<le> 2 ^ 1000"
  shows "let lower = mu - stds * sigma; upper = mu + stds * sigma;
             pts = linspace lower upper (2 ^ n + 1);
             grid = fst (gaussian_discretization n mu sigma stds);
             probs = snd (gaussian_discretization n mu sigma stds)
         in length grid = 2 ^ n \<and> length probs = 2 ^ n \<and>
            length pts = 2 ^ n + 1 \<and> pts ! 0 = lower \<and> pts ! (2 ^ n) = upper \<and>
            (\<forall>i<2 ^ n. pts ! (i + 1) - pts ! i = (upper - lower) / 2 ^ n) \<and>
            grid = take (2 ^ n) pts \<and>
            (\<forall>i<2 ^ n. grid ! i = lower + real i * ((upper - lower) / 2 ^ n)) \<and>
            0 < (upper - lower) / 2 ^ n \<and>
            sorted_wrt (<) grid"
proof -
  define lower where "lower = mu - stds * sigma"
  define upper where "upper = mu + stds * sigma"
  define pts where "pts = linspace lower upper (2 ^ n + 1)"
  define grid where "grid = fst (gaussian_discretization n mu sigma stds)"
  define step where "step = (upper - lower) / 2 ^ n"
  have "0 < stds * sigma" using assms(2,3) by simp
  then have "lower < upper" unfolding lower_def upper_def by linarith
  then have step_pos: "0 < step" unfolding step_def by simp
  have len_pts: "length pts = 2 ^ n + 1" by (simp add: pts_def length_linspace)
  have nth_pts: "pts ! i = lower + real i * step" if "i \<le> 2 ^ n" for i
    using that unfolding pts_def step_def by (simp add: nth_linspace)
  have grid_eq: "grid = butlast pts"
    by (simp add: grid_def pts_def lower_def upper_def fst_gaussian_discretization)
  then have grid_take: "grid = take (2 ^ n) pts"
    using len_pts by (simp add: butlast_conv_take)
  have len_grid: "length grid = 2 ^ n" using grid_take len_pts by simp
  have nth_grid: "grid ! i = lower + real i * step" if "i < 2 ^ n" for i
    using that grid_take nth_pts [of i] by simp
  have first: "pts ! 0 = lower" using nth_pts [of 0] by simp
  have "pts ! (2 ^ n) = lower + 2 ^ n * step" using nth_pts [of "2 ^ n"] by simp
  then have last: "pts ! (2 ^ n) = upper" by (simp add: step_def)
  have diff: "pts ! (i + 1) - pts ! i = step" if "i < 2 ^ n" for i
    using that nth_pts [of i] nth_pts [of "i + 1"] by (simp add: algebra_simps)
  have "grid ! i < grid ! j" if "i < j" "j < length grid" for i j
  proof -
    have "real i * step < real j * step" using that step_pos by simp
    then show ?thesis using that len_grid nth_grid [of i] nth_grid [of j] by simp
  qed
  then have sorted: "sorted_wrt (<) grid" by (simp add: sorted_wrt_iff_nth_less)
  have len_probs: "length (snd (gaussian_discretization n mu sigma stds)) = 2 ^ n"
    by (rule length_snd_gaussian_discretization)
  show ?thesis
    using len_grid len_probs len_pts first last grid_take nth_grid diff step_pos sorted
    unfolding Let_def lower_def [symmetric] upper_def [symmetric] pts_def [symmetric]
      grid_def [symmetric] step_def [symmetric]
    by blast
qed

theorem gaussian_discretization_grid_witness:
  "(1::nat) \<le> 2 \<and> (0::real) < 1 \<and> (0::real) < 3 \<and>
   \<bar>0::real\<bar> + 3 * 1 \<le> 2 ^ 40 * (2 * (3 * 1) / 2 ^ 2) \<and>
   1 / 2 ^ 1000 \<le> 2 * (3 * 1) / (2 ^ 2 :: real) \<and> \<bar>0::real\<bar> + 3 * 1 \<le> 2 ^ 1000 \<and>
   fst (gaussian_discretization 2 0 1 3) = [- 3, - 3 / 2, 0, 3 / 2] \<and>
   length (snd (gaussian_discretization 2 0 1 3)) = 4 \<and>
   sorted_wrt (<) (fst (gaussian_discretization 2 0 1 3))"
proof -
  have g: "fst (gaussian_discretization 2 0 1 3) = [- 3, - 3 / 2, 0, 3 / 2]"
    by (simp add: fst_gaussian_discretization linspace_def numeral_eq_Suc)
  have h: "(1::nat) \<le> 2" "(0::real) < 1" "(0::real) < 3"
      "\<bar>0::real\<bar> + 3 * 1 \<le> 2 ^ 40 * (2 * (3 * 1) / 2 ^ 2)"
      "1 / 2 ^ 1000 \<le> 2 * (3 * 1) / (2 ^ 2 :: real)" "\<bar>0::real\<bar> + 3 * 1 \<le> 2 ^ 1000"
    by simp_all
  from gaussian_discretization_grid [OF h, unfolded Let_def]
  have "length (snd (gaussian_discretization 2 0 1 3)) = 2 ^ 2"
       "sorted_wrt (<) (fst (gaussian_discretization 2 0 1 3))"
    by blast+
  then have "length (snd (gaussian_discretization 2 0 1 3)) = 4"
       "sorted_wrt (<) (fst (gaussian_discretization 2 0 1 3))"
    by simp_all
  with g h show ?thesis by blast
qed

text \<open>
  Claim C8 as stated, for any \<open>stds_around_mean_to_include\<close>, fails for a negative one:
  with \<open>n = 1\<close>, \<open>mu = 0\<close>, \<open>sigma = 1\<close> and \<open>stds_around_mean_to_include = -1\<close> the grid is
  \<open>[1, 0]\<close>, which decreases. (It also fails where doubles absorb the step: with
  \<open>mu = 1e17\<close>, \<open>sigma = 1\<close> and \<open>stds_around_mean_to_include = 3\<close> a run returns the
  constant grid \<open>[1e17, 1e17, 1e17, 1e17]\<close>; the amended claim leaves that range out.)
\<close>

theorem gaussian_discretization_grid_counterexample:
  "fst (gaussian_discretization 1 0 1 (- 1)) = [1, 0]
   \<and> \<not> sorted_wrt (<) (fst (gaussian_discretization 1 0 1 (- 1)))"
  by (simp add: fst_gaussian_discretization linspace_def numeral_eq_Suc)

section \<open>Properties of the sanity check\<close>

text \<open>
  Claim C3, as amended. With a non-empty grid the sanity-check cell raises nothing and
  displays the warning, which asks the reader to stop the run, exactly when \<open>K\<close> is
  greater than or equal to the maximum asset value
  \<open>max (S0 * exp (CHOLESKY . [grid_points[-1], grid_points[-1]] + MU))\<close>; when \<open>K\<close> is
  smaller it displays nothing and the run continues unchanged.
\<close>

theorem sanity_check_displays:
  assumes "grid_points \<noteq> []"
  shows "let g = last grid_points;
             m = max (fst S0 * exp (fst (fst CHOLESKY) * g + snd (fst CHOLESKY) * g + fst MU))
                     (snd S0 * exp (fst (snd CHOLESKY) * g + snd (snd CHOLESKY) * g + snd MU))
         in (\<exists>out. sanity_check K S0 CHOLESKY MU grid_points = Inr out) \<and>
            (sanity_check K S0 CHOLESKY MU grid_points = Inr [warning_text] \<longleftrightarrow> m \<le> K) \<and>
            (sanity_check K S0 CHOLESKY MU grid_points = Inr [] \<longleftrightarrow> K < m)"
  using assms by (auto simp: sanity_check_def max_asset_value_def Let_def)

theorem sanity_check_displays_witness:
  "[- 3, - 3 / 2, 0, 3 / 2 :: real] \<noteq> [] \<and>
   sanity_check 190 (190, 100) ((0, 0), (0, 0)) (0, 0) [- 3, - 3 / 2, 0, 3 / 2] = Inr [warning_text]"
  using sanity_check_displays [of "[- 3, - 3 / 2, 0, 3 / 2]" "(190, 100)" "((0, 0), (0, 0))" "(0, 0)" 190]
  by (simp add: Let_def)

text \<open>
  Claim C3 as stated fails when \<open>K\<close> equals the maximum asset value: \<open>K\<close> does not exceed
  it and the warning is displayed all the same. With \<open>K\<close> above the maximum the cell
  displays the warning and returns normally, as it does in every case.
\<close>

theorem sanity_check_strict_counterexample:
  "sanity_check 190 (190, 100) ((0, 0), (0, 0)) (0, 0) [- 3, - 3 / 2, 0, 3 / 2] = Inr [warning_text]
   \<and> \<not> (190 > max_asset_value (190, 100) ((0, 0), (0, 0)) (0, 0) (3 / 2))
   \<and> sanity_check 200 (190, 100) ((0, 0), (0, 0)) (0, 0) [- 3, - 3 / 2, 0, 3 / 2] = Inr [warning_text]"
  by (simp add: sanity_check_def max_asset_value_def)

section \<open>Properties of the precision utilities\<close>


lemma py_round_cases:
  obtains "py_round x = \<lfloor>x\<rfloor>" "x - of_int \<lfloor>x\<rfloor> \<le> 1 / 2"
  | "py_round x = \<lfloor>x\<rfloor> + 1" "1 / 2 \<le> x - of_int \<lfloor>x\<rfloor>"
  unfolding py_round_def Let_def
  by (cases "x - of_int \<lfloor>x\<rfloor> < 1 / 2"; cases "1 / 2 < x - of_int \<lfloor>x\<rfloor>"; cases "even \<lfloor>x\<rfloor>") simp_all

lemma py_round_close: "\<bar>of_int (py_round x) - x\<bar> \<le> 1 / 2"
proof -
  define d where "d = x - of_int \<lfloor>x\<rfloor>"
  have d: "0 \<le> d" "d < 1" unfolding d_def by linarith+
  show ?thesis
  proof (cases x rule: py_round_cases)
    case 1
    then have "of_int (py_round x) - x = - d" "d \<le> 1 / 2" by (simp_all add: d_def)
    with d show ?thesis by simp
  next
    case 2
    then have "of_int (py_round x) - x = 1 - d" "1 / 2 \<le> d" by (simp_all add: d_def)
    with d show ?thesis by simp
  qed
qed





lemma round_factor_in_range:
  assumes "\<bar>a\<bar> * 2 ^ FRAC_PLACES \<le> float_max"
  shows "round_factor a = Inr (of_int (py_round (a * 2 ^ FRAC_PLACES)) / 2 ^ FRAC_PLACES)"
proof -
  have "\<bar>a * 2 ^ FRAC_PLACES\<bar> = \<bar>a\<bar> * 2 ^ FRAC_PLACES" by (simp add: abs_mult)
  with assms show ?thesis by (simp add: round_factor_def Let_def)
qed

lemma floor_factor_in_range:
  assumes "\<bar>a\<bar> * 2 ^ FRAC_PLACES \<le> float_max"
  shows "floor_factor a = Some (of_int \<lfloor>a * 2 ^ FRAC_PLACES\<rfloor> / 2 ^ FRAC_PLACES)"
proof -
  have "\<bar>a * 2 ^ FRAC_PLACES\<bar> = \<bar>a\<bar> * 2 ^ FRAC_PLACES" by (simp add: abs_mult)
  with assms show ?thesis by (simp add: floor_factor_def Let_def)
qed

lemma round_factor_overflow:
  assumes "float_max < \<bar>a\<bar> * 2 ^ FRAC_PLACES"
  shows "round_factor a = Inl OverflowError"
proof -
  have "\<bar>a * 2 ^ FRAC_PLACES\<bar> = \<bar>a\<bar> * 2 ^ FRAC_PLACES" by (simp add: abs_mult)
  with assms show ?thesis by (simp add: round_factor_def Let_def)
qed

lemma floor_factor_overflow:
  assumes "float_max < \<bar>a\<bar> * 2 ^ FRAC_PLACES"
  shows "floor_factor a = None"
proof -
  have "\<bar>a * 2 ^ FRAC_PLACES\<bar> = \<bar>a\<bar> * 2 ^ FRAC_PLACES" by (simp add: abs_mult)
  with assms show ?thesis by (simp add: floor_factor_def Let_def)
qed

lemma big_double_overflows: "float_max < \<bar>2 ^ 1023\<bar> * 2 ^ FRAC_PLACES"
  by (simp add: float_max_def FRAC_PLACES_def)






text \<open>
  Claim C9, as amended. For every \<open>a\<close> whose product with \<open>2 ^ FRAC_PLACES\<close> does not
  exceed the largest double, \<open>floor_factor a\<close> is the greatest integer multiple of
  \<open>2 ^ (- FRAC_PLACES)\<close> that does not exceed \<open>a\<close>, so
  \<open>floor_factor a \<le> a < floor_factor a + 2 ^ (- FRAC_PLACES)\<close>; and \<open>round_factor a\<close> is an
  integer multiple of \<open>2 ^ (- FRAC_PLACES)\<close> at distance at most
  \<open>2 ^ (- (FRAC_PLACES + 1))\<close> from \<open>a\<close>.
\<close>

theorem factor_grid_bounds:
  assumes "\<bar>a\<bar> * 2 ^ FRAC_PLACES \<le> float_max"
  shows "\<exists>f r. floor_factor a = Some f \<and> round_factor a = Inr r
       \<and> f \<le> a \<and> a < f + 1 / 2 ^ FRAC_PLACES
       \<and> (\<exists>k::int. f = of_int k / 2 ^ FRAC_PLACES)
       \<and> (\<forall>k::int. of_int k / 2 ^ FRAC_PLACES \<le> a \<longrightarrow> of_int k / 2 ^ FRAC_PLACES \<le> f)
       \<and> (\<exists>k::int. r = of_int k / 2 ^ FRAC_PLACES)
       \<and> \<bar>r - a\<bar> \<le> 1 / 2 ^ (FRAC_PLACES + 1)"
proof -
  let ?p = "(2::real) ^ FRAC_PLACES"
  define f where "f = of_int \<lfloor>a * ?p\<rfloor> / ?p"
  define r where "r = of_int (py_round (a * ?p)) / ?p"
  have p: "0 < ?p" by simp
  have fl: "of_int \<lfloor>a * ?p\<rfloor> \<le> a * ?p" "a * ?p < of_int \<lfloor>a * ?p\<rfloor> + 1" by linarith+
  have ff: "floor_factor a = Some f" unfolding f_def by (rule floor_factor_in_range [OF assms])
  have rf: "round_factor a = Inr r" unfolding r_def by (rule round_factor_in_range [OF assms])
  have 1: "f \<le> a"
    using fl(1) p by (simp add: f_def divide_le_eq)
  have 2: "a < f + 1 / ?p"
    using fl(2) p by (simp add: f_def add_divide_distrib [symmetric] less_divide_eq)
  have 3: "\<exists>k::int. f = of_int k / ?p"
    by (auto simp: f_def)
  have 4: "\<forall>k::int. of_int k / ?p \<le> a \<longrightarrow> of_int k / ?p \<le> f"
  proof (intro allI impI)
    fix k :: int
    assume "of_int k / ?p \<le> a"
    then have "of_int k \<le> a * ?p" using p by (simp add: divide_le_eq)
    then have "k \<le> \<lfloor>a * ?p\<rfloor>" by (simp add: le_floor_iff)
    then have "(of_int k :: real) \<le> of_int \<lfloor>a * ?p\<rfloor>" by simp
    then show "of_int k / ?p \<le> f"
      using p by (simp add: f_def divide_right_mono)
  qed
  have 5: "\<exists>k::int. r = of_int k / ?p"
    by (auto simp: r_def)
  have "\<bar>r - a\<bar> = \<bar>of_int (py_round (a * ?p)) - a * ?p\<bar> / ?p"
  proof -
    have "r - a = (of_int (py_round (a * ?p)) - a * ?p) / ?p"
      using p by (simp add: r_def diff_divide_distrib)
    then show ?thesis using p by simp
  qed
  also have "\<dots> \<le> (1 / 2) / ?p"
    by (rule divide_right_mono [OF py_round_close]) simp
  also have "\<dots> = 1 / 2 ^ (FRAC_PLACES + 1)" by simp
  finally have 6: "\<bar>r - a\<bar> \<le> 1 / 2 ^ (FRAC_PLACES + 1)" .
  from ff rf 1 2 3 4 5 6 show ?thesis by blast
qed

theorem factor_grid_bounds_witness:
  "\<bar>3 / 10\<bar> * 2 ^ FRAC_PLACES \<le> float_max \<and>
   real_of_int 1 / 2 ^ FRAC_PLACES \<le> 3 / 10 \<and>
   (\<exists>f. floor_factor (3 / 10) = Some f \<and> real_of_int 1 / 2 ^ FRAC_PLACES \<le> f \<and> f \<le> 3 / 10)"
proof -
  have h: "\<bar>3 / 10\<bar> * 2 ^ FRAC_PLACES \<le> float_max"
    by (simp add: float_max_def FRAC_PLACES_def)
  have h': "real_of_int 1 / 2 ^ FRAC_PLACES \<le> 3 / 10"
    by (simp add: FRAC_PLACES_def)
  from factor_grid_bounds [OF h]
  obtain f where "floor_factor (3 / 10) = Some f" "f \<le> 3 / 10"
    and "\<forall>k::int. real_of_int k / 2 ^ FRAC_PLACES \<le> 3 / 10
           \<longrightarrow> real_of_int k / 2 ^ FRAC_PLACES \<le> f"
    by blast
  with h h' show ?thesis by blast
qed

text \<open>
  Claim C9 as stated, for every real \<open>a\<close>, fails for the double \<open>2\<^sup>1\<^sup>0\<^sup>2\<^sup>3\<close>: \<open>floor_factor\<close>
  returns \<open>inf\<close>, which is not at most \<open>a\<close>, and \<open>round_factor\<close> returns nothing.
\<close>

theorem floor_factor_overflow_counterexample:
  "floor_factor (2 ^ 1023) = None \<and> round_factor (2 ^ 1023) = Inl OverflowError"
  using floor_factor_overflow [OF big_double_overflows]
    round_factor_overflow [OF big_double_overflows] by simp

section \<open>Properties of the post-processing and of the final assertion\<close>

text \<open>
  Claim C6. The option value and both ends of the returned confidence interval are the
  images of the raw estimation and of the raw ends under one affine map
  \<open>t \<mapsto> t * (C * B) + (C * A) - K\<close>, with \<open>A = 1 / exp exp_rate\<close>,
  \<open>B = (exp (2 ^ MAX_NUM_QUBITS * exp_rate) - 1) / exp exp_rate\<close> and
  \<open>C = S0[0] * exp (MU[0] + MIN_X * sum (CHOLESKY[0]))\<close>; so the ends keep their order
  whenever \<open>C * B \<ge> 0\<close>.
\<close>

theorem parse_result_integration_affine:
  "let exp_rate = (1 / 2 ^ MAX_FRAC_PLACES) * a;
       A = 1 / exp exp_rate;
       B = (exp (2 ^ MAX_NUM_QUBITS * exp_rate) - 1) / exp exp_rate;
       C = fst S0 * exp (fst MU + MIN_X * (fst (fst CHOLESKY) + snd (fst CHOLESKY)));
       f = (\<lambda>t. t * (C * B) + (C * A) - K);
       res = parse_result_integration a MAX_FRAC_PLACES MAX_NUM_QUBITS S0 MU MIN_X CHOLESKY K iqae_res
   in res = (f (estimation iqae_res),
             (f (fst (confidence_interval iqae_res)), f (snd (confidence_interval iqae_res))))
      \<and> (0 \<le> C * B \<and> fst (confidence_interval iqae_res) \<le> snd (confidence_interval iqae_res)
           \<longrightarrow> fst (snd res) \<le> snd (snd res))"
proof -
  define exp_rate where "exp_rate = (1 / 2 ^ MAX_FRAC_PLACES) * a"
  define A where "A = 1 / exp exp_rate"
  define B where "B = (exp (2 ^ MAX_NUM_QUBITS * exp_rate) - 1) / exp exp_rate"
  define C where "C = fst S0 * exp (fst MU + MIN_X * (fst (fst CHOLESKY) + snd (fst CHOLESKY)))"
  define lo where "lo = fst (confidence_interval iqae_res)"
  define hi where "hi = snd (confidence_interval iqae_res)"
  have res: "parse_result_integration a MAX_FRAC_PLACES MAX_NUM_QUBITS S0 MU MIN_X CHOLESKY K iqae_res
      = (estimation iqae_res * (C * B) + (C * A) - K,
         (lo * (C * B) + (C * A) - K, hi * (C * B) + (C * A) - K))"
    unfolding parse_result_integration_def Let_def exp_rate_def A_def B_def C_def lo_def hi_def
    by simp
  have mono: "lo * (C * B) + (C * A) - K \<le> hi * (C * B) + (C * A) - K"
    if "0 \<le> C * B" "lo \<le> hi"
    using mult_right_mono [OF that(2) that(1)] by simp
  show ?thesis
    unfolding Let_def exp_rate_def [symmetric] A_def [symmetric] B_def [symmetric]
      C_def [symmetric] lo_def [symmetric] hi_def [symmetric] res
    using mono by simp
qed

theorem parse_result_integration_affine_witness:
  "0 \<le> (19397 / 100 * exp (1 / 8 + - 3 * (1 / 4 + 0)))
          * ((exp (2 ^ 5 * (1 / 2 ^ 2 * 1)) - 1) / exp (1 / 2 ^ 2 * (1::real)))
   \<and> fst (confidence_interval \<lparr>estimation = 1 / 20, confidence_interval = (1 / 25, 3 / 50)\<rparr>)
     \<le> snd (confidence_interval \<lparr>estimation = 1 / 20, confidence_interval = (1 / 25, 3 / 50)\<rparr>)
   \<and> fst (snd (parse_result_integration 1 2 5 (19397 / 100, 18912 / 100) (1 / 8, 1 / 6) (- 3)
               ((1 / 4, 0), (1 / 5, 1 / 4)) 190
               \<lparr>estimation = 1 / 20, confidence_interval = (1 / 25, 3 / 50)\<rparr>))
     \<le> snd (snd (parse_result_integration 1 2 5 (19397 / 100, 18912 / 100) (1 / 8, 1 / 6) (- 3)
               ((1 / 4, 0), (1 / 5, 1 / 4)) 190
               \<lparr>estimation = 1 / 20, confidence_interval = (1 / 25, 3 / 50)\<rparr>))"
proof -
  define B :: real where "B = (exp (2 ^ 5 * (1 / 2 ^ 2 * 1)) - 1) / exp (1 / 2 ^ 2 * 1)"
  define C :: real where "C = 19397 / 100 * exp (1 / 8 + - 3 * (1 / 4 + 0))"
  have "0 \<le> B" unfolding B_def by (intro divide_nonneg_pos) simp_all
  moreover have "0 \<le> C" unfolding C_def by simp
  ultimately have pos: "0 \<le> C * B" by simp
  have ord: "(1 / 25 :: real) \<le> 3 / 50" by simp
  from parse_result_integration_affine [where a = 1 and MAX_FRAC_PLACES = 2
      and MAX_NUM_QUBITS = 5 and ?S0.0 = "(19397 / 100, 18912 / 100)" and MU = "(1 / 8, 1 / 6)"
      and MIN_X = "- 3" and CHOLESKY = "((1 / 4, 0), (1 / 5, 1 / 4))" and K = 190
      and iqae_res = "\<lparr>estimation = 1 / 20, confidence_interval = (1 / 25, 3 / 50)\<rparr>",
      unfolded Let_def, THEN conjunct2] pos ord
  have "fst (snd (parse_result_integration 1 2 5 (19397 / 100, 18912 / 100) (1 / 8, 1 / 6) (- 3)
               ((1 / 4, 0), (1 / 5, 1 / 4)) 190
               \<lparr>estimation = 1 / 20, confidence_interval = (1 / 25, 3 / 50)\<rparr>))
     \<le> snd (snd (parse_result_integration 1 2 5 (19397 / 100, 18912 / 100) (1 / 8, 1 / 6) (- 3)
               ((1 / 4, 0), (1 / 5, 1 / 4)) 190
               \<lparr>estimation = 1 / 20, confidence_interval = (1 / 25, 3 / 50)\<rparr>))"
    unfolding B_def C_def by simp
  with pos ord show ?thesis
    unfolding B_def C_def by simp
qed

text \<open>
  Claim C4, as amended. The assertion passes exactly when the upper end of the
  confidence interval is at least \<open>-5\<close> and its lower end at most \<open>45\<close>, and raises
  \<open>AssertionError\<close> otherwise; for an interval whose ends are in order this means that
  the interval and \<open>[-5, 45]\<close> have a point in common.
\<close>

theorem post_hoc_assertion_overlap:
  "(post_hoc_assertion (lo, hi) = Inr () \<longleftrightarrow> - 5 \<le> hi \<and> lo \<le> 45)
   \<and> (post_hoc_assertion (lo, hi) = Inl AssertionError \<longleftrightarrow> hi < - 5 \<or> 45 < lo)
   \<and> (lo \<le> hi \<longrightarrow> (post_hoc_assertion (lo, hi) = Inr () \<longleftrightarrow> {lo..hi} \<inter> {- 5..45} \<noteq> {}))"
proof (intro conjI impI)
  show "post_hoc_assertion (lo, hi) = Inr () \<longleftrightarrow> - 5 \<le> hi \<and> lo \<le> 45"
    by (auto simp: post_hoc_assertion_def)
  show "post_hoc_assertion (lo, hi) = Inl AssertionError \<longleftrightarrow> hi < - 5 \<or> 45 < lo"
    by (auto simp: post_hoc_assertion_def)
  assume le: "lo \<le> hi"
  have "{lo..hi} \<inter> {- 5..45} \<noteq> {} \<longleftrightarrow> - 5 \<le> hi \<and> lo \<le> 45"
    using le by auto
  then show "post_hoc_assertion (lo, hi) = Inr () \<longleftrightarrow> {lo..hi} \<inter> {- 5..45} \<noteq> {}"
    by (auto simp: post_hoc_assertion_def)
qed

theorem post_hoc_assertion_overlap_witness:
  "(30::real) \<le> 60 \<and> post_hoc_assertion (30, 60) = Inr () \<and> {30..60} \<inter> {- 5..45} \<noteq> ({}::real set)"
proof -
  have "post_hoc_assertion (30, 60) = Inr ()" by (simp add: post_hoc_assertion_def)
  with post_hoc_assertion_overlap [of 30 60] show ?thesis by simp
qed

text \<open>
  Claim C4 as stated fails for the interval \<open>(-100, 100)\<close>: it does not lie within
  \<open>[-5, 45]\<close> and the assertion passes.
\<close>

theorem post_hoc_assertion_within_counterexample:
  "post_hoc_assertion (- 100, 100) = Inr () \<and> \<not> (- 5 \<le> (- 100::real) \<and> (100::real) \<le> 45)"
  by (simp add: post_hoc_assertion_def)

end
